theory Spec2Isabelle
  imports Main "HOL-Library.Sublist"
begin

section \<open>Data model of \<open>__astro_component\<close>\<close>

text \<open>
  The component value handed to the entry point is an arbitrary JavaScript value. The
  code looks at four things only: whether it is \<open>null\<close> or \<open>undefined\<close>, its
  \<open>typeof\<close>, the \<open>displayName\<close> and \<open>name\<close> of a function, and what it turns
  into inside a template literal. Functions and other objects carry an identity, since
  the cache is a JavaScript \<open>Map\<close> that compares such keys by reference; strings are
  compared by content. \<open>CFunction i d n\<close> is the function of identity \<open>i\<close> whose
  \<open>displayName\<close> is \<open>d\<close> (\<open>None\<close> when it is null or undefined) and whose \<open>name\<close>
  is \<open>n\<close>; \<open>COther i s\<close> is any other value, of identity \<open>i\<close>, printed as \<open>s\<close>.
\<close>

datatype component =
    CNull
  | CUndefined
  | CString string
  | CFunction nat "string option" string
  | COther nat string

datatype error = Error string | TypeError string

datatype hydrate_mode = Load | Idle | Visible

record component_export =
  exportValue :: string
  namespace :: "bool option"

text \<open>\<open>AstroComponentProps\<close>; every field may be absent at run time (the default is \<open>{}\<close>).\<close>

record AstroComponentProps =
  displayName :: "string option"
  hydrate :: "hydrate_mode option"
  componentUrl :: "string option"
  componentExport :: "component_export option"

text \<open>
  The \<open>Renderer\<close> type is declared outside the file; the code calls its \<open>check\<close> and
  its \<open>renderToStaticMarkup\<close>. Both may throw, so they return a sum. A check is a
  function of its four arguments, props \<open>'p\<close> and options \<open>'o\<close> being opaque.
\<close>

record ('p, 'o) Renderer =
  check :: "component \<Rightarrow> 'p \<Rightarrow> string \<Rightarrow> 'o option \<Rightarrow> error + bool"
  renderToStaticMarkup :: "component \<Rightarrow> 'p \<Rightarrow> string \<Rightarrow> 'o option \<Rightarrow> error + string"

record ('p, 'o) RendererInstance =
  source :: "string option"
  renderer :: "('p, 'o) Renderer"
  options :: "'o option"
  polyfills :: "string list"

text \<open>
  What the file imports and does not define: the two built-in renderers
  (\<open>./renderer-astro\<close>, \<open>./renderer-html\<close>), \<open>serialize\<close> (astring over
  estree-util-value-to-estree) and \<open>hash.unique\<close> (shorthash). They are parameters.
\<close>

record ('p, 'o) env =
  astro :: "('p, 'o) Renderer"
  astroHtml :: "('p, 'o) Renderer"
  serialize :: "'p \<Rightarrow> string"
  hash_unique :: "string \<Rightarrow> string"

text \<open>
  The module state: \<open>rendererInstances\<close> and \<open>rendererCache\<close>. \<open>checkLog\<close> is not a
  variable of the source: it records, in call order, the instance whose \<open>check\<close> is
  invoked at line 59, as a counting stub in each adapter would.
\<close>

record ('p, 'o) world =
  rendererInstances :: "('p, 'o) RendererInstance list"
  rendererCache :: "component \<rightharpoonup> ('p, 'o) RendererInstance"
  checkLog :: "('p, 'o) RendererInstance list"

section \<open>Registry\<close>

text \<open>The two built-in instances (lines 19 to 31); their \<open>source\<close> is the empty string.\<close>

definition astroRendererInstance :: "('p, 'o) env \<Rightarrow> ('p, 'o) RendererInstance" where
  "astroRendererInstance E =
     \<lparr>source = Some [], renderer = astro E, options = None, polyfills = []\<rparr>"

definition astroHtmlRendererInstance :: "('p, 'o) env \<Rightarrow> ('p, 'o) RendererInstance" where
  "astroHtmlRendererInstance E =
     \<lparr>source = Some [], renderer = astroHtml E, options = None, polyfills = []\<rparr>"

text \<open>The state of the module once loaded: lines 33 and 43.\<close>

definition initial_world :: "('p, 'o) world" where
  "initial_world = \<lparr>rendererInstances = [], rendererCache = Map.empty, checkLog = []\<rparr>"

text \<open>\<open>setRenderers\<close> (lines 35 to 37) assigns the registry and nothing else.\<close>

definition setRenderers ::
  "('p, 'o) env \<Rightarrow> ('p, 'o) RendererInstance list \<Rightarrow> ('p, 'o) world \<Rightarrow> ('p, 'o) world" where
  "setRenderers E rs w = w\<lparr>rendererInstances := [astroRendererInstance E] @ rs\<rparr>"

definition isCustomElementTag :: "component \<Rightarrow> bool" where
  "isCustomElementTag name = (case name of CString s \<Rightarrow> CHR ''-'' \<in> set s | _ \<Rightarrow> False)"

section \<open>Resolution\<close>

text \<open>
  The \<open>for\<close> loop of \<open>resolveRenderer\<close> (lines 52 to 68) over the instances still to
  visit, with the \<open>errors\<close> array, followed by lines 70 to 74 once the list is exhausted.
\<close>

fun resolveRenderer_loop ::
  "component \<Rightarrow> 'p \<Rightarrow> string \<Rightarrow> ('p, 'o) RendererInstance list \<Rightarrow> error list \<Rightarrow>
   ('p, 'o) world \<Rightarrow> (error + ('p, 'o) RendererInstance option) \<times> ('p, 'o) world" where
  "resolveRenderer_loop c props children [] errors w =
     (case errors of [] \<Rightarrow> (Inr None, w) | e # _ \<Rightarrow> (Inl e, w))"
| "resolveRenderer_loop c props children (inst # rest) errors w =
     (let w1 = w\<lparr>checkLog := checkLog w @ [inst]\<rparr> in
      case check (renderer inst) c props children (options inst) of
        Inr shouldUse \<Rightarrow>
          if shouldUse
          then (Inr (Some inst), w1\<lparr>rendererCache := (rendererCache w1)(c \<mapsto> inst)\<rparr>)
          else resolveRenderer_loop c props children rest errors w1
      | Inl err \<Rightarrow> resolveRenderer_loop c props children rest (errors @ [err]) w1)"

text \<open>\<open>resolveRenderer\<close>: the cache lookup of lines 47 to 49, then the loop.\<close>

definition resolveRenderer ::
  "component \<Rightarrow> 'p \<Rightarrow> string \<Rightarrow> ('p, 'o) world \<Rightarrow>
   (error + ('p, 'o) RendererInstance option) \<times> ('p, 'o) world" where
  "resolveRenderer c props children w =
     (case rendererCache w c of
        Some inst \<Rightarrow> (Inr (Some inst), w)
      | None \<Rightarrow> resolveRenderer_loop c props children (rendererInstances w) [] w)"

section \<open>Strings\<close>

text \<open>\<open>Array.prototype.join\<close> on an array of strings.\<close>

fun join :: "string \<Rightarrow> string list \<Rightarrow> string" where
  "join sep [] = []"
| "join sep [x] = x"
| "join sep (x # y # ys) = x @ sep @ join sep (y # ys)"

text \<open>What a template literal prints for an optional string and for the hydrate mode.\<close>

definition templateString :: "string option \<Rightarrow> string" where
  "templateString v = (case v of None \<Rightarrow> ''undefined'' | Some s \<Rightarrow> s)"

definition modeString :: "hydrate_mode \<Rightarrow> string" where
  "modeString m = (case m of Load \<Rightarrow> ''load'' | Idle \<Rightarrow> ''idle'' | Visible \<Rightarrow> ''visible'')"

definition templateMode :: "hydrate_mode option \<Rightarrow> string" where
  "templateMode v = (case v of None \<Rightarrow> ''undefined'' | Some m \<Rightarrow> modeString m)"

text \<open>A string is truthy when it is present and not empty.\<close>

definition truthy :: "string option \<Rightarrow> bool" where
  "truthy v = (case v of None \<Rightarrow> False | Some s \<Rightarrow> s \<noteq> [])"

definition openTag :: string where
  "openTag = ''<astro-fragment>''"

definition closeTag :: string where
  "closeTag = ''</astro-fragment>''"

text \<open>
  The global \<open>replace\<close> of line 159, whose pattern is a \<open><\<close>, an optional \<open>/\<close> and
  the literal \<open>astro-fragment>\<close>: the scan goes left to right; where the pattern
  matches, the match is dropped and the scan resumes behind it, otherwise the character
  is kept. The pattern has no flag but \<open>g\<close>, so it matches the two literal tags only.
\<close>

function removeAstroFragment :: "string \<Rightarrow> string" where
  "removeAstroFragment [] = []"
| "removeAstroFragment (x # xs) =
     (if prefix closeTag (x # xs) then removeAstroFragment (drop (length closeTag) (x # xs))
      else if prefix openTag (x # xs) then removeAstroFragment (drop (length openTag) (x # xs))
      else x # removeAstroFragment xs)"
  by pat_completeness auto
termination
  by (relation "measure length") (auto simp: openTag_def closeTag_def)

section \<open>Hydration script\<close>

text \<open>
  \<open>generateHydrateScript\<close>. Both templates of \<open>hydrationSource\<close> begin and end with
  literal text, so \<open>trim()\<close> removes exactly the leading newline and two blanks and the
  trailing newline. Reading \<open>componentExport.value\<close> of an absent \<open>componentExport\<close>
  is a TypeError.
\<close>

definition generateHydrateScript ::
  "('p, 'o) env \<Rightarrow> ('p, 'o) RendererInstance \<Rightarrow> string \<Rightarrow> 'p \<Rightarrow> AstroComponentProps \<Rightarrow>
   error + string" where
  \<open>generateHydrateScript E inst astroId props cp =
     (let hydrationSource =
        (if truthy (source inst)
         then (case componentExport cp of
                 None \<Rightarrow> Inl (TypeError ''Cannot read property 'value' of undefined'')
               | Some ce \<Rightarrow>
                   Inr (''const [{ '' @ exportValue ce
                        @ '': Component }, { default: hydrate }] = await Promise.all([import("''
                        @ templateString (componentUrl cp) @ ''"), import("''
                        @ templateString (source inst) @ ''")]);\<newline>''
                        @ ''  return (el, children) => hydrate(el)(Component, ''
                        @ serialize E props @ '', children);''))
         else Inr (''await import("'' @ templateString (componentUrl cp)
                   @ ''");\<newline>  return () => {};''))
      in case hydrationSource of
           Inl e \<Rightarrow> Inl e
         | Inr src \<Rightarrow>
             Inr (''<script type="module">\<newline>''
                  @ ''import setup from '/_astro_frontend/hydrate/'' @ templateMode (hydrate cp)
                  @ ''.js';\<newline>''
                  @ ''setup("'' @ astroId @ ''", async () => {\<newline>''
                  @ ''  '' @ src @ ''\<newline>''
                  @ ''});\<newline>''
                  @ ''</script>''))\<close>

section \<open>Entry point\<close>

text \<open>
  \<open>getComponentName\<close>, as the string the template literal of line 146 prints. A
  function is never printed itself; \<open>COther\<close> carries what it prints.
\<close>

definition getComponentName :: "component \<Rightarrow> AstroComponentProps \<Rightarrow> string" where
  "getComponentName c cp =
     (if truthy (displayName cp) then the (displayName cp)
      else case c of
             CFunction _ dn nm \<Rightarrow> (case dn of Some d \<Rightarrow> d | None \<Rightarrow> nm)
           | CString s \<Rightarrow> s
           | CNull \<Rightarrow> ''null''
           | CUndefined \<Rightarrow> ''undefined''
           | COther _ s \<Rightarrow> s)"

text \<open>Lines 133 to 148 of the returned closure: resolution, then the fallbacks.\<close>

definition astro_component_instance ::
  "('p, 'o) env \<Rightarrow> component \<Rightarrow> AstroComponentProps \<Rightarrow> 'p \<Rightarrow> string \<Rightarrow> ('p, 'o) world \<Rightarrow>
   (error + ('p, 'o) RendererInstance) \<times> ('p, 'o) world" where
  "astro_component_instance E c cp props children w =
     (case resolveRenderer c props children w of
        (Inl e, w') \<Rightarrow> (Inl e, w')
      | (Inr (Some inst), w') \<Rightarrow> (Inr inst, w')
      | (Inr None, w') \<Rightarrow>
          (let fallback =
             (if isCustomElementTag c then Some (astroHtmlRendererInstance E)
              else if length (rendererInstances w') = 2 then Some (rendererInstances w' ! 1)
              else None)
           in case fallback of
                Some inst \<Rightarrow> (Inr inst, w')
              | None \<Rightarrow>
                  (Inl (Error (''No renderer found for '' @ getComponentName c cp
                     @ ''! Did you forget to add a renderer to your Astro config?'')), w')))"

text \<open>Lines 149 to 154: the adapter's markup, followed by the polyfill scripts.\<close>

definition astro_component_html ::
  "('p, 'o) RendererInstance \<Rightarrow> component \<Rightarrow> 'p \<Rightarrow> string \<Rightarrow> error + string" where
  \<open>astro_component_html inst c props children =
     (case renderToStaticMarkup (renderer inst) c props children (options inst) of
        Inl e \<Rightarrow> Inl e
      | Inr html \<Rightarrow>
          (if polyfills inst \<noteq> []
           then Inr (html @ join []
                  (map (\<lambda>src. ''<script type="module" src="'' @ src @ ''"></script>'')
                     (polyfills inst)))
           else Inr html))\<close>

text \<open>Lines 156 to 166: strip the wrapper, or wrap and append the hydration script.\<close>

definition astro_component_markup ::
  "('p, 'o) env \<Rightarrow> ('p, 'o) RendererInstance \<Rightarrow> component \<Rightarrow> AstroComponentProps \<Rightarrow> 'p \<Rightarrow>
   string \<Rightarrow> error + string" where
  \<open>astro_component_markup E inst c cp props children =
     (case astro_component_html inst c props children of
        Inl e \<Rightarrow> Inl e
      | Inr html \<Rightarrow>
          (case hydrate cp of
             None \<Rightarrow> Inr (removeAstroFragment html)
           | Some _ \<Rightarrow>
               (let astroId = hash_unique E html in
                case generateHydrateScript E inst astroId props cp of
                  Inl e \<Rightarrow> Inl e
                | Inr script \<Rightarrow>
                    (let astroRoot =
                       ''<astro-root uid="'' @ astroId @ ''">'' @ html @ ''</astro-root>''
                     in Inr (join ''\<newline>'' [astroRoot, script])))))\<close>

text \<open>The closure returned by \<open>__astro_component\<close> (lines 131 to 167).\<close>

definition astro_component_render ::
  "('p, 'o) env \<Rightarrow> component \<Rightarrow> AstroComponentProps \<Rightarrow> 'p \<Rightarrow> string list \<Rightarrow> ('p, 'o) world \<Rightarrow>
   (error + string) \<times> ('p, 'o) world" where
  "astro_component_render E c cp props cs w =
     (let children = join ''\<newline>'' cs in
      case astro_component_instance E c cp props children w of
        (Inl e, w') \<Rightarrow> (Inl e, w')
      | (Inr inst, w') \<Rightarrow> (astro_component_markup E inst c cp props children, w'))"

text \<open>
  \<open>__astro_component\<close>: the first stage reads no module state; it throws or returns
  the closure.
\<close>

definition astro_component ::
  "('p, 'o) env \<Rightarrow> component \<Rightarrow> AstroComponentProps \<Rightarrow>
   error + ('p \<Rightarrow> string list \<Rightarrow> ('p, 'o) world \<Rightarrow> (error + string) \<times> ('p, 'o) world)" where
  \<open>astro_component E c cp =
     (if c = CNull \<or> c = CUndefined
      then Inl (Error (''Unable to render '' @ templateString (displayName cp)
             @ '' because it is '' @ (if c = CNull then ''null'' else ''undefined'')
             @ ''!\<newline>Did you forget to import the component or is it possible there is a typo?''))
      else if (case c of CString _ \<Rightarrow> True | _ \<Rightarrow> False) \<and> \<not> isCustomElementTag c
      then Inl (Error (''Astro is unable to render '' @ templateString (displayName cp)
             @ ''!\<newline>Is there a renderer to handle this type of component defined in your Astro config?''))
      else Inr (astro_component_render E c cp))\<close>

section \<open>Vocabulary of the statements\<close>

text \<open>The errors thrown by the checks of a list of instances, in registry order.\<close>

definition thrown_errors ::
  "component \<Rightarrow> 'p \<Rightarrow> string \<Rightarrow> ('p, 'o) RendererInstance list \<Rightarrow> error list" where
  "thrown_errors c p ch rs =
     List.map_filter (\<lambda>i. case check (renderer i) c p ch (options i) of
                             Inl e \<Rightarrow> Some e | Inr _ \<Rightarrow> None) rs"

text \<open>
  What a client of the module can do between two resolutions: install renderers,
  resolve, or embed a component (both stages). \<open>perform\<close> keeps the module state only.
\<close>

datatype ('p, 'o) module_call =
    CallSetRenderers "('p, 'o) RendererInstance list"
  | CallResolve component 'p string
  | CallComponent component AstroComponentProps 'p "string list"

fun perform :: "('p, 'o) env \<Rightarrow> ('p, 'o) module_call \<Rightarrow> ('p, 'o) world \<Rightarrow> ('p, 'o) world" where
  "perform E (CallSetRenderers rs) w = setRenderers E rs w"
| "perform E (CallResolve c p ch) w = snd (resolveRenderer c p ch w)"
| "perform E (CallComponent c cp p cs) w =
     (case astro_component E c cp of Inl _ \<Rightarrow> w | Inr run \<Rightarrow> snd (run p cs w))"

text \<open>
  Markup as a sequence of pieces: wrapper tags and text. A text is \<open>tagFree\<close> when no
  wrapper tag, whole or cut off by the end of the text, begins inside it.
\<close>

datatype piece = Text string | Open | Close

definition pieceMarkup :: "piece \<Rightarrow> string" where
  "pieceMarkup pc = (case pc of Text t \<Rightarrow> t | Open \<Rightarrow> openTag | Close \<Rightarrow> closeTag)"

definition markupOf :: "piece list \<Rightarrow> string" where
  "markupOf ps = concat (map pieceMarkup ps)"

definition textOf :: "piece list \<Rightarrow> string" where
  "textOf ps = concat (map (\<lambda>pc. case pc of Text t \<Rightarrow> t | _ \<Rightarrow> []) ps)"

fun tagFree :: "string \<Rightarrow> bool" where
  "tagFree [] = True"
| "tagFree (x # xs) =
     (\<not> prefix (x # xs) openTag \<and> \<not> prefix openTag (x # xs) \<and>
      \<not> prefix (x # xs) closeTag \<and> \<not> prefix closeTag (x # xs) \<and> tagFree xs)"

definition piecesTagFree :: "piece list \<Rightarrow> bool" where
  "piecesTagFree ps = list_all (\<lambda>pc. case pc of Text t \<Rightarrow> tagFree t | _ \<Rightarrow> True) ps"

section \<open>Test doubles\<close>

text \<open>
  Adapters with a fixed check outcome and fixed markup, props given as the text of their
  literal, and an environment whose built-in renderers match nothing.
\<close>

definition stub :: "string \<Rightarrow> (error + bool) \<Rightarrow> string \<Rightarrow> (string, unit) RendererInstance" where
  "stub nm outcome html =
     \<lparr>source = Some nm,
      renderer = \<lparr>check = (\<lambda>_ _ _ _. outcome), renderToStaticMarkup = (\<lambda>_ _ _ _. Inr html)\<rparr>,
      options = None, polyfills = []\<rparr>"

definition stub_env :: "(string, unit) env" where
  "stub_env =
     \<lparr>astro = \<lparr>check = (\<lambda>_ _ _ _. Inr False), renderToStaticMarkup = (\<lambda>_ _ ch _. Inr ch)\<rparr>,
      astroHtml = \<lparr>check = (\<lambda>_ _ _ _. Inr False), renderToStaticMarkup = (\<lambda>_ _ ch _. Inr ch)\<rparr>,
      serialize = (\<lambda>p. p),
      hash_unique = (\<lambda>_. ''Z1x9Qk'')\<rparr>"

definition stub_world :: "(string, unit) RendererInstance list \<Rightarrow> (string, unit) world" where
  "stub_world rs = \<lparr>rendererInstances = rs, rendererCache = Map.empty, checkLog = []\<rparr>"


section \<open>Lemmas\<close>

subsection \<open>The resolution loop\<close>

lemma loop_first_match:
  assumes "\<forall>i \<in> set pre. check (renderer i) c p ch (options i) \<noteq> Inr True"
    and "check (renderer inst) c p ch (options inst) = Inr True"
  shows "resolveRenderer_loop c p ch (pre @ inst # post) errs w =
     (Inr (Some inst),
      w\<lparr>checkLog := checkLog w @ pre @ [inst], rendererCache := (rendererCache w)(c \<mapsto> inst)\<rparr>)"
  using assms
proof (induction pre arbitrary: errs w)
  case Nil
  then show ?case by (auto simp: Let_def intro!: world.equality)
next
  case (Cons a pre)
  then show ?case
    by (cases "check (renderer a) c p ch (options a)") (auto simp: Let_def intro!: world.equality)
qed

lemma loop_no_match:
  assumes "\<forall>i \<in> set rs. check (renderer i) c p ch (options i) \<noteq> Inr True"
  shows "resolveRenderer_loop c p ch rs errs w =
     (case errs @ thrown_errors c p ch rs of [] \<Rightarrow> Inr None | e # _ \<Rightarrow> Inl e,
      w\<lparr>checkLog := checkLog w @ rs\<rparr>)"
  using assms
proof (induction rs arbitrary: errs w)
  case Nil
  then show ?case by (simp add: thrown_errors_def split: list.splits)
next
  case (Cons a rs)
  then show ?case
    by (cases "check (renderer a) c p ch (options a)")
       (auto simp: Let_def thrown_errors_def split: list.splits)
qed

lemma find_split:
  "List.find P xs = Some x \<Longrightarrow> \<exists>pre post. xs = pre @ x # post \<and> P x \<and> (\<forall>y \<in> set pre. \<not> P y)"
proof (induction xs)
  case Nil
  then show ?case by simp
next
  case (Cons a xs)
  show ?case
  proof (cases "P a")
    case True
    with Cons.prems have "a = x" by simp
    with True have "a # xs = [] @ x # xs \<and> P x \<and> (\<forall>y \<in> set []. \<not> P y)" by simp
    then show ?thesis by blast
  next
    case False
    with Cons obtain pre post where "xs = pre @ x # post" "P x" "\<forall>y \<in> set pre. \<not> P y"
      by auto
    with False have "a # xs = (a # pre) @ x # post \<and> P x \<and> (\<forall>y \<in> set (a # pre). \<not> P y)"
      by simp
    then show ?thesis by blast
  qed
qed

lemma resolveRenderer_result:
  "fst (resolveRenderer c p ch w) =
     (case rendererCache w c of
        Some inst \<Rightarrow> Inr (Some inst)
      | None \<Rightarrow>
          (case List.find (\<lambda>i. check (renderer i) c p ch (options i) = Inr True)
                  (rendererInstances w) of
             Some inst \<Rightarrow> Inr (Some inst)
           | None \<Rightarrow> (case thrown_errors c p ch (rendererInstances w) of
                         [] \<Rightarrow> Inr None | e # _ \<Rightarrow> Inl e)))"
proof (cases "rendererCache w c")
  case (Some inst)
  then show ?thesis by (simp add: resolveRenderer_def)
next
  case None
  note uncached = this
  let ?P = "\<lambda>i. check (renderer i) c p ch (options i) = Inr True"
  show ?thesis
  proof (cases "List.find ?P (rendererInstances w)")
    case None
    then have "\<forall>i \<in> set (rendererInstances w). \<not> ?P i"
      by (simp add: find_None_iff)
    from loop_no_match [OF this, of "[]" w] None uncached show ?thesis
      by (simp add: resolveRenderer_def)
  next
    case (Some inst)
    from find_split [OF this] obtain pre post where
      "rendererInstances w = pre @ inst # post" "?P inst" "\<forall>y \<in> set pre. \<not> ?P y"
      by blast
    with loop_first_match [of pre c p ch inst post "[]" w] Some uncached show ?thesis
      by (simp add: resolveRenderer_def)
  qed
qed

lemma loop_cache:
  "rendererCache (snd (resolveRenderer_loop c p ch rs errs w)) =
     (case fst (resolveRenderer_loop c p ch rs errs w) of
        Inr (Some inst) \<Rightarrow> (rendererCache w)(c \<mapsto> inst)
      | _ \<Rightarrow> rendererCache w)"
  by (induction rs arbitrary: errs w) (auto simp: Let_def split: list.splits sum.splits option.splits)

lemma loop_log:
  "checkLog (snd (resolveRenderer_loop c p ch rs errs w)) =
     checkLog w @ take (Suc (length (takeWhile
       (\<lambda>i. check (renderer i) c p ch (options i) \<noteq> Inr True) rs))) rs"
  by (induction rs arbitrary: errs w) (auto simp: Let_def split: list.splits sum.splits option.splits)

lemma resolveRenderer_cache:
  "rendererCache (snd (resolveRenderer c p ch w)) =
     (case rendererCache w c of
        Some _ \<Rightarrow> rendererCache w
      | None \<Rightarrow> (case fst (resolveRenderer c p ch w) of
                   Inr (Some inst) \<Rightarrow> (rendererCache w)(c \<mapsto> inst)
                 | _ \<Rightarrow> rendererCache w))"
  by (simp add: resolveRenderer_def loop_cache split: option.splits)

lemma resolveRenderer_keeps:
  assumes "rendererCache w c = Some inst"
  shows "rendererCache (snd (resolveRenderer c' p ch w)) c = Some inst"
  using assms
  by (cases "c' = c") (auto simp: resolveRenderer_cache split: option.splits sum.splits)

lemma render_world:
  "snd (astro_component_render E c cp p cs w) = snd (resolveRenderer c p (join ''\<newline>'' cs) w)"
  by (simp add: astro_component_render_def astro_component_instance_def Let_def
      split: prod.splits sum.splits option.splits)

lemma perform_keeps:
  assumes "rendererCache w c = Some inst"
  shows "rendererCache (perform E call w) c = Some inst"
proof (cases call)
  case (CallSetRenderers rs)
  with assms show ?thesis by (simp add: setRenderers_def)
next
  case (CallResolve c' p ch)
  with assms show ?thesis by (simp add: resolveRenderer_keeps)
next
  case (CallComponent c' cp p cs)
  with assms show ?thesis
    by (simp add: astro_component_def render_world resolveRenderer_keeps)
qed

lemma fold_perform_keeps:
  "rendererCache w c = Some inst \<Longrightarrow> rendererCache (fold (perform E) calls w) c = Some inst"
  by (induction calls arbitrary: w) (simp_all add: perform_keeps)


lemma resolveRenderer_none:
  assumes "resolveRenderer c p ch w = (Inr None, w1)"
  shows "rendererCache w c = None"
    and "\<forall>i \<in> set (rendererInstances w). check (renderer i) c p ch (options i) \<noteq> Inr True"
    and "thrown_errors c p ch (rendererInstances w) = []"
    and "w1 = w\<lparr>checkLog := checkLog w @ rendererInstances w\<rparr>"
proof -
  show uncached: "rendererCache w c = None"
    using assms by (cases "rendererCache w c") (simp_all add: resolveRenderer_def)
  from assms have res: "fst (resolveRenderer c p ch w) = Inr None" by simp
  show nomatch: "\<forall>i \<in> set (rendererInstances w). check (renderer i) c p ch (options i) \<noteq> Inr True"
    using res uncached resolveRenderer_result [of c p ch w]
    by (auto simp: find_None_iff split: option.splits)
  show "thrown_errors c p ch (rendererInstances w) = []"
    using res uncached resolveRenderer_result [of c p ch w]
    by (auto split: option.splits list.splits)
  from loop_no_match [OF nomatch, of "[]" w] assms uncached
  show "w1 = w\<lparr>checkLog := checkLog w @ rendererInstances w\<rparr>"
    by (simp add: resolveRenderer_def)
qed

lemma resolveRenderer_none_again:
  assumes "resolveRenderer c p ch w = (Inr None, w1)"
  shows "resolveRenderer c p ch w1 = (Inr None, w1\<lparr>checkLog := checkLog w1 @ rendererInstances w1\<rparr>)"
proof -
  note facts = resolveRenderer_none [OF assms]
  have "\<forall>i \<in> set (rendererInstances w1). check (renderer i) c p ch (options i) \<noteq> Inr True"
    using facts(2,4) by simp
  from loop_no_match [OF this, of "[]" w1] facts(1,3,4) show ?thesis
    by (simp add: resolveRenderer_def)
qed


subsection \<open>Removing the wrapper tags\<close>

lemma prefix_append_cases:
  "prefix tag (t @ r) \<Longrightarrow> prefix tag t \<or> prefix t tag"
  by (auto simp: prefix_append)

lemma remove_text:
  "tagFree t \<Longrightarrow> removeAstroFragment (t @ r) = t @ removeAstroFragment r"
proof (induction t)
  case Nil
  then show ?case by simp
next
  case (Cons x xs)
  from Cons.prems have "\<not> prefix openTag ((x # xs) @ r)" "\<not> prefix closeTag ((x # xs) @ r)"
    using prefix_append_cases [of openTag "x # xs" r] prefix_append_cases [of closeTag "x # xs" r]
    by auto
  then have "removeAstroFragment ((x # xs) @ r) = x # removeAstroFragment (xs @ r)"
    by simp
  with Cons show ?case by simp
qed

lemma remove_openTag: "removeAstroFragment (openTag @ r) = removeAstroFragment r"
  by (simp add: openTag_def closeTag_def)

lemma remove_closeTag: "removeAstroFragment (closeTag @ r) = removeAstroFragment r"
  by (simp add: openTag_def closeTag_def)

lemma sublist_text:
  "tagFree t \<Longrightarrow> sublist openTag (t @ r) = sublist openTag r \<and>
                 sublist closeTag (t @ r) = sublist closeTag r"
proof (induction t)
  case Nil
  then show ?case by simp
next
  case (Cons x xs)
  from Cons.prems have "\<not> prefix openTag (x # xs @ r)" "\<not> prefix closeTag (x # xs @ r)"
    using prefix_append_cases [of openTag "x # xs" r] prefix_append_cases [of closeTag "x # xs" r]
    by auto
  with Cons show ?case by (simp add: sublist_Cons_right)
qed

lemma remove_pieces:
  "piecesTagFree ps \<Longrightarrow>
     removeAstroFragment (markupOf ps) = textOf ps \<and>
     \<not> sublist openTag (textOf ps) \<and> \<not> sublist closeTag (textOf ps)"
proof (induction ps)
  case Nil
  then show ?case by (simp add: markupOf_def textOf_def openTag_def closeTag_def)
next
  case (Cons pc ps)
  then have IH: "removeAstroFragment (markupOf ps) = textOf ps"
    "\<not> sublist openTag (textOf ps)" "\<not> sublist closeTag (textOf ps)"
    by (simp_all add: piecesTagFree_def)
  show ?case
  proof (cases pc)
    case (Text t)
    with Cons.prems have "tagFree t" by (simp add: piecesTagFree_def)
    with IH Text show ?thesis
      using remove_text [of t "markupOf ps"] sublist_text [of t "textOf ps"]
      by (simp add: markupOf_def textOf_def pieceMarkup_def)
  next
    case Open
    with IH show ?thesis
      using remove_openTag [of "markupOf ps"]
      by (simp add: markupOf_def textOf_def pieceMarkup_def)
  next
    case Close
    with IH show ?thesis
      using remove_closeTag [of "markupOf ps"]
      by (simp add: markupOf_def textOf_def pieceMarkup_def)
  qed
qed

section \<open>The claims\<close>

text \<open>
  Claim C1. On a component that is not cached, when the \<open>k\<close>-th instance of the registry
  (counted from 1, the prepended \<open>astro\<close> instance included) is the first whose check
  returns true, \<open>resolveRenderer\<close> invokes the checks of the first \<open>k\<close> instances, in
  registry order and no other, returns the \<open>k\<close>-th instance and stores it in the cache
  under the component.
\<close>

theorem resolveRenderer_first_match:
  assumes "rendererCache w c = None"
    and "1 \<le> k" and "k \<le> length (rendererInstances w)"
    and "check (renderer (rendererInstances w ! (k - 1))) c p ch
           (options (rendererInstances w ! (k - 1))) = Inr True"
    and "\<forall>j < k - 1. check (renderer (rendererInstances w ! j)) c p ch
           (options (rendererInstances w ! j)) \<noteq> Inr True"
  shows "resolveRenderer c p ch w =
     (Inr (Some (rendererInstances w ! (k - 1))),
      w\<lparr>checkLog := checkLog w @ take k (rendererInstances w),
        rendererCache := (rendererCache w)(c \<mapsto> rendererInstances w ! (k - 1))\<rparr>)"
proof -
  let ?rs = "rendererInstances w"
  from assms(2,3) have lt: "k - 1 < length ?rs" by simp
  have split: "?rs = take (k - 1) ?rs @ ?rs ! (k - 1) # drop k ?rs"
    using id_take_nth_drop [OF lt] assms(2) by simp
  have pre: "\<forall>i \<in> set (take (k - 1) ?rs). check (renderer i) c p ch (options i) \<noteq> Inr True"
  proof
    fix i assume "i \<in> set (take (k - 1) ?rs)"
    then obtain j where "j < k - 1" "i = ?rs ! j"
      using lt by (auto simp: in_set_conv_nth)
    with assms(5) show "check (renderer i) c p ch (options i) \<noteq> Inr True" by simp
  qed
  have log: "take (k - 1) ?rs @ [?rs ! (k - 1)] = take k ?rs"
    using take_Suc_conv_app_nth [OF lt] assms(2) by simp
  have "resolveRenderer c p ch w = resolveRenderer_loop c p ch ?rs [] w"
    using assms(1) by (simp add: resolveRenderer_def)
  also have "\<dots> = resolveRenderer_loop c p ch
      (take (k - 1) ?rs @ ?rs ! (k - 1) # drop k ?rs) [] w"
    using split by simp
  also have "\<dots> = (Inr (Some (?rs ! (k - 1))),
      w\<lparr>checkLog := checkLog w @ take (k - 1) ?rs @ [?rs ! (k - 1)],
        rendererCache := (rendererCache w)(c \<mapsto> ?rs ! (k - 1))\<rparr>)"
    by (rule loop_first_match [OF pre assms(4)])
  finally show ?thesis using log by simp
qed

text \<open>
  C1 at a registry of four: the first check throws, the second returns false, the third
  and the fourth return true. Three checks are logged and the third instance is cached.
\<close>

theorem resolveRenderer_first_match_witness:
  "rendererCache (stub_world [stub ''a'' (Inl (Error ''boom'')) [], stub ''b'' (Inr False) [],
        stub ''c'' (Inr True) [], stub ''d'' (Inr True) []]) (CFunction 0 None ''Counter'') = None
   \<and> resolveRenderer (CFunction 0 None ''Counter'') ''{}'' []
        (stub_world [stub ''a'' (Inl (Error ''boom'')) [], stub ''b'' (Inr False) [],
           stub ''c'' (Inr True) [], stub ''d'' (Inr True) []]) =
      (Inr (Some (stub ''c'' (Inr True) [])),
       \<lparr>rendererInstances = [stub ''a'' (Inl (Error ''boom'')) [], stub ''b'' (Inr False) [],
           stub ''c'' (Inr True) [], stub ''d'' (Inr True) []],
        rendererCache = [CFunction 0 None ''Counter'' \<mapsto> stub ''c'' (Inr True) []],
        checkLog = [stub ''a'' (Inl (Error ''boom'')) [], stub ''b'' (Inr False) [],
           stub ''c'' (Inr True) []]\<rparr>)"
  using resolveRenderer_first_match [of
      "stub_world [stub ''a'' (Inl (Error ''boom'')) [], stub ''b'' (Inr False) [],
        stub ''c'' (Inr True) [], stub ''d'' (Inr True) []]"
      "CFunction 0 None ''Counter''" 3 "''{}''" "[]"]
  by (simp add: stub_world_def stub_def less_Suc_eq eval_nat_numeral)

text \<open>
  Claim C2. Once \<open>resolveRenderer\<close> has returned an instance for a component, every
  later resolution of that component, whatever is installed, resolved or embedded in
  between and whatever props and children it is given, returns the same instance and
  leaves the module state as it is: no check is invoked. The first call invoked the
  checks of a prefix of the registry, each position once at most.
\<close>

theorem resolveRenderer_cache_hit:
  assumes "resolveRenderer c p ch w = (Inr (Some inst), w1)"
  shows "(\<exists>k. checkLog w1 = checkLog w @ take k (rendererInstances w)) \<and>
         resolveRenderer c p' ch' (fold (perform E) calls w1) =
           (Inr (Some inst), fold (perform E) calls w1)"
proof -
  have cached: "rendererCache w1 c = Some inst"
  proof (cases "rendererCache w c")
    case None
    with assms resolveRenderer_cache [of c p ch w] show ?thesis by simp
  next
    case (Some i)
    with assms show ?thesis by (simp add: resolveRenderer_def)
  qed
  have log: "\<exists>k. checkLog w1 = checkLog w @ take k (rendererInstances w)"
  proof (cases "rendererCache w c")
    case None
    with assms have "w1 = snd (resolveRenderer_loop c p ch (rendererInstances w) [] w)"
      by (simp add: resolveRenderer_def)
    then show ?thesis using loop_log [of c p ch "rendererInstances w" "[]" w] by blast
  next
    case (Some i)
    with assms have "w1 = w" by (simp add: resolveRenderer_def)
    then have "checkLog w1 = checkLog w @ take 0 (rendererInstances w)" by simp
    then show ?thesis by blast
  qed
  from cached have "rendererCache (fold (perform E) calls w1) c = Some inst"
    by (rule fold_perform_keeps)
  then have "resolveRenderer c p' ch' (fold (perform E) calls w1) =
      (Inr (Some inst), fold (perform E) calls w1)"
    by (simp add: resolveRenderer_def)
  with log show ?thesis by simp
qed

text \<open>
  C2 at a registry of two, with a replacement of the registry between the two calls.
\<close>

theorem resolveRenderer_cache_hit_witness:
  "resolveRenderer (CString ''my-counter'') ''{}'' []
       (stub_world [stub ''a'' (Inr False) [], stub ''b'' (Inr True) []]) =
     (Inr (Some (stub ''b'' (Inr True) [])),
      \<lparr>rendererInstances = [stub ''a'' (Inr False) [], stub ''b'' (Inr True) []],
       rendererCache = [CString ''my-counter'' \<mapsto> stub ''b'' (Inr True) []],
       checkLog = [stub ''a'' (Inr False) [], stub ''b'' (Inr True) []]\<rparr>)
   \<and> resolveRenderer (CString ''my-counter'') ''{count: 1}'' ''x''
       (fold (perform stub_env) [CallSetRenderers [stub ''c'' (Inr True) []]]
          \<lparr>rendererInstances = [stub ''a'' (Inr False) [], stub ''b'' (Inr True) []],
           rendererCache = [CString ''my-counter'' \<mapsto> stub ''b'' (Inr True) []],
           checkLog = [stub ''a'' (Inr False) [], stub ''b'' (Inr True) []]\<rparr>) =
     (Inr (Some (stub ''b'' (Inr True) [])),
      fold (perform stub_env) [CallSetRenderers [stub ''c'' (Inr True) []]]
          \<lparr>rendererInstances = [stub ''a'' (Inr False) [], stub ''b'' (Inr True) []],
           rendererCache = [CString ''my-counter'' \<mapsto> stub ''b'' (Inr True) []],
           checkLog = [stub ''a'' (Inr False) [], stub ''b'' (Inr True) []]\<rparr>)"
proof -
  have first: "resolveRenderer (CString ''my-counter'') ''{}'' []
       (stub_world [stub ''a'' (Inr False) [], stub ''b'' (Inr True) []]) =
     (Inr (Some (stub ''b'' (Inr True) [])),
      \<lparr>rendererInstances = [stub ''a'' (Inr False) [], stub ''b'' (Inr True) []],
       rendererCache = [CString ''my-counter'' \<mapsto> stub ''b'' (Inr True) []],
       checkLog = [stub ''a'' (Inr False) [], stub ''b'' (Inr True) []]\<rparr>)"
    by (simp add: resolveRenderer_def stub_world_def stub_def Let_def)
  from resolveRenderer_cache_hit [OF first, of "''{count: 1}''" "''x''" stub_env
      "[CallSetRenderers [stub ''c'' (Inr True) []]]"] first
  show ?thesis by simp
qed

text \<open>
  Claim C3. When resolution returns no instance and throws nothing, the closure uses
  the plain-HTML instance if the component is a string with a hyphen; otherwise, if the
  registry has exactly two entries, the entry at index 1; otherwise it throws the
  \<open>No renderer found\<close> error, which names \<open>getComponentName\<close>: the \<open>displayName\<close> of the
  component props when it is given and not empty.
\<close>

theorem astro_component_fallback_order:
  assumes "resolveRenderer c p (join ''\<newline>'' cs) w = (Inr None, w1)"
  shows "astro_component_render E c cp p cs w =
     (if isCustomElementTag c
      then astro_component_markup E (astroHtmlRendererInstance E) c cp p (join ''\<newline>'' cs)
      else if length (rendererInstances w) = 2
      then astro_component_markup E (rendererInstances w ! 1) c cp p (join ''\<newline>'' cs)
      else Inl (Error (''No renderer found for '' @ getComponentName c cp
             @ ''! Did you forget to add a renderer to your Astro config?'')),
      w1)
   \<and> isCustomElementTag c = (\<exists>s. c = CString s \<and> CHR ''-'' \<in> set s)
   \<and> (\<forall>d. displayName cp = Some d \<and> d \<noteq> [] \<longrightarrow> getComponentName c cp = d)"
proof -
  have "rendererInstances w1 = rendererInstances w"
    using resolveRenderer_none(4) [OF assms] by simp
  with assms have "astro_component_render E c cp p cs w =
     (if isCustomElementTag c
      then astro_component_markup E (astroHtmlRendererInstance E) c cp p (join ''\<newline>'' cs)
      else if length (rendererInstances w) = 2
      then astro_component_markup E (rendererInstances w ! 1) c cp p (join ''\<newline>'' cs)
      else Inl (Error (''No renderer found for '' @ getComponentName c cp
             @ ''! Did you forget to add a renderer to your Astro config?'')),
      w1)"
    by (simp add: astro_component_render_def astro_component_instance_def Let_def)
  moreover have "isCustomElementTag c = (\<exists>s. c = CString s \<and> CHR ''-'' \<in> set s)"
    by (cases c) (simp_all add: isCustomElementTag_def)
  moreover have "\<forall>d. displayName cp = Some d \<and> d \<noteq> [] \<longrightarrow> getComponentName c cp = d"
    by (simp add: getComponentName_def truthy_def)
  ultimately show ?thesis by simp
qed

text \<open>
  C3 at a function component that no check accepts, with one user adapter installed:
  the markup is the user adapter's.
\<close>

theorem astro_component_fallback_order_witness:
  "resolveRenderer (CFunction 7 None ''Card'') ''{}'' (join ''\<newline>'' [])
      (stub_world [astroRendererInstance stub_env, stub ''a'' (Inr False) ''<b>a</b>'']) =
     (Inr None,
      \<lparr>rendererInstances = [astroRendererInstance stub_env, stub ''a'' (Inr False) ''<b>a</b>''],
       rendererCache = Map.empty,
       checkLog = [astroRendererInstance stub_env, stub ''a'' (Inr False) ''<b>a</b>'']\<rparr>)
   \<and> astro_component_render stub_env (CFunction 7 None ''Card'')
        \<lparr>displayName = Some ''Card'', hydrate = None, componentUrl = None,
         componentExport = None\<rparr> ''{}'' []
        (stub_world [astroRendererInstance stub_env, stub ''a'' (Inr False) ''<b>a</b>'']) =
     (Inr ''<b>a</b>'',
      \<lparr>rendererInstances = [astroRendererInstance stub_env, stub ''a'' (Inr False) ''<b>a</b>''],
       rendererCache = Map.empty,
       checkLog = [astroRendererInstance stub_env, stub ''a'' (Inr False) ''<b>a</b>'']\<rparr>)"
proof -
  have first: "resolveRenderer (CFunction 7 None ''Card'') ''{}'' (join ''\<newline>'' [])
      (stub_world [astroRendererInstance stub_env, stub ''a'' (Inr False) ''<b>a</b>'']) =
     (Inr None,
      \<lparr>rendererInstances = [astroRendererInstance stub_env, stub ''a'' (Inr False) ''<b>a</b>''],
       rendererCache = Map.empty,
       checkLog = [astroRendererInstance stub_env, stub ''a'' (Inr False) ''<b>a</b>'']\<rparr>)"
    by (simp add: resolveRenderer_def stub_world_def stub_def stub_env_def
        astroRendererInstance_def Let_def)
  have markup: "astro_component_markup stub_env (stub ''a'' (Inr False) ''<b>a</b>'')
       (CFunction 7 None ''Card'')
       \<lparr>displayName = Some ''Card'', hydrate = None, componentUrl = None,
        componentExport = None\<rparr> ''{}'' [] = Inr ''<b>a</b>''"
    by (simp add: astro_component_markup_def astro_component_html_def stub_def
        openTag_def closeTag_def)
  from astro_component_fallback_order [OF first, of stub_env
      "\<lparr>displayName = Some ''Card'', hydrate = None, componentUrl = None,
        componentExport = None\<rparr>"] first markup
  show ?thesis by (simp add: stub_world_def isCustomElementTag_def)
qed

text \<open>
  Claim C4. For a component that is \<open>null\<close> or \<open>undefined\<close>, or a string without a
  hyphen, the first stage throws an error whose message contains the \<open>displayName\<close> of
  the component props (the word \<open>undefined\<close> when there is none). No closure is
  returned, so embedding the component leaves the module state, and the log of checks
  with it, untouched.
\<close>

theorem astro_component_invalid:
  assumes "c = CNull \<or> c = CUndefined \<or> (\<exists>s. c = CString s \<and> CHR ''-'' \<notin> set s)"
  shows "\<exists>msg. astro_component E c cp = Inl (Error msg) \<and>
           (\<forall>d. displayName cp = Some d \<longrightarrow> sublist d msg) \<and>
           (displayName cp = None \<longrightarrow> sublist ''undefined'' msg) \<and>
           perform E (CallComponent c cp p cs) w = w"
proof -
  have name: "(\<forall>d. displayName cp = Some d \<longrightarrow> sublist d (pre @ templateString (displayName cp) @ post)) \<and>
      (displayName cp = None \<longrightarrow> sublist ''undefined'' (pre @ templateString (displayName cp) @ post))"
    for pre post
    by (auto simp: templateString_def sublist_def)
  show ?thesis
  proof (cases "c = CNull \<or> c = CUndefined")
    case True
    then have "astro_component E c cp =
        Inl (Error (''Unable to render '' @ templateString (displayName cp)
          @ ('' because it is '' @ (if c = CNull then ''null'' else ''undefined'')
          @ ''!\<newline>Did you forget to import the component or is it possible there is a typo?'')))"
      by (simp add: astro_component_def)
    with name [of "''Unable to render ''"] show ?thesis by force
  next
    case False
    with assms obtain s where "c = CString s" "CHR ''-'' \<notin> set s" by blast
    then have "astro_component E c cp =
        Inl (Error (''Astro is unable to render '' @ templateString (displayName cp)
          @ ''!\<newline>Is there a renderer to handle this type of component defined in your Astro config?''))"
      by (simp add: astro_component_def isCustomElementTag_def)
    with name [of "''Astro is unable to render ''"] show ?thesis by force
  qed
qed

text \<open>
  C4 at the tag \<open>div\<close> with display name \<open>Card\<close>.
\<close>

theorem astro_component_invalid_witness:
  "(CString ''div'' = CNull \<or> CString ''div'' = CUndefined \<or>
      (\<exists>s. CString ''div'' = CString s \<and> CHR ''-'' \<notin> set s))
   \<and> astro_component stub_env (CString ''div'')
      \<lparr>displayName = Some ''Card'', hydrate = None, componentUrl = None, componentExport = None\<rparr>
     = Inl (Error (''Astro is unable to render Card!\<newline>''
          @ ''Is there a renderer to handle this type of component defined in your Astro config?''))
   \<and> sublist ''Card'' (''Astro is unable to render Card!\<newline>''
          @ ''Is there a renderer to handle this type of component defined in your Astro config?'')
   \<and> perform stub_env (CallComponent (CString ''div'')
        \<lparr>displayName = Some ''Card'', hydrate = None, componentUrl = None, componentExport = None\<rparr>
        ''{}'' []) (stub_world [stub ''a'' (Inr True) []]) = stub_world [stub ''a'' (Inr True) []]"
proof -
  have hyp: "CString ''div'' = CNull \<or> CString ''div'' = CUndefined \<or>
      (\<exists>s. CString ''div'' = CString s \<and> CHR ''-'' \<notin> set s)"
    by simp
  from astro_component_invalid [OF hyp, of stub_env
      "\<lparr>displayName = Some ''Card'', hydrate = None, componentUrl = None, componentExport = None\<rparr>"
      "''{}''" "[]" "stub_world [stub ''a'' (Inr True) []]"] hyp
  show ?thesis
    by (auto simp: astro_component_def isCustomElementTag_def templateString_def)
qed

text \<open>
  Claim C5 says that resolution never throws once one check has completed without
  throwing. It does: with a first check that throws and a second that returns false,
  the error of the first is thrown.
\<close>

theorem resolveRenderer_swallow_counterexample:
  "check (renderer (stub ''b'' (Inr False) [])) (CFunction 0 None ''Counter'') ''{}'' []
       (options (stub ''b'' (Inr False) [])) = Inr False
   \<and> fst (resolveRenderer (CFunction 0 None ''Counter'') ''{}'' []
        (stub_world [stub ''a'' (Inl (Error ''boom'')) [], stub ''b'' (Inr False) []])) =
      Inl (Error ''boom'')"
  by (simp add: resolveRenderer_def stub_world_def stub_def Let_def)

text \<open>
  Claim C5, amended. On a component that is not cached, the thrown errors are swallowed
  exactly when some check returns true: the result is then the first instance whose
  check returns true. When no check returns true, the first thrown error is thrown if
  there is one, and \<open>undefined\<close> is returned only if no check threw.
\<close>

theorem resolveRenderer_outcome:
  assumes "rendererCache w c = None"
  shows "fst (resolveRenderer c p ch w) =
     (case List.find (\<lambda>i. check (renderer i) c p ch (options i) = Inr True)
             (rendererInstances w) of
        Some inst \<Rightarrow> Inr (Some inst)
      | None \<Rightarrow> (case thrown_errors c p ch (rendererInstances w) of
                    [] \<Rightarrow> Inr None
                  | e # _ \<Rightarrow> Inl e))"
  using assms resolveRenderer_result [of c p ch w] by simp

text \<open>
  The amended C5 at the scenario of the specification: the first check throws, the
  second returns true.
\<close>

theorem resolveRenderer_outcome_witness:
  "rendererCache (stub_world [stub ''a'' (Inl (Error ''boom'')) [], stub ''b'' (Inr True) []])
       (CFunction 0 None ''Counter'') = None
   \<and> fst (resolveRenderer (CFunction 0 None ''Counter'') ''{}'' []
        (stub_world [stub ''a'' (Inl (Error ''boom'')) [], stub ''b'' (Inr True) []])) =
      Inr (Some (stub ''b'' (Inr True) []))"
  using resolveRenderer_outcome [of
      "stub_world [stub ''a'' (Inl (Error ''boom'')) [], stub ''b'' (Inr True) []]"
      "CFunction 0 None ''Counter''" "''{}''" "[]"]
  by (simp add: stub_world_def stub_def)

text \<open>
  Claim C6. On a component that is not cached, when the check of every instance of a
  registry that is not empty throws, \<open>resolveRenderer\<close> throws the error of the first
  instance, after having invoked every check.
\<close>

theorem resolveRenderer_all_throw:
  assumes "rendererCache w c = None"
    and "rendererInstances w = first # rest"
    and "check (renderer first) c p ch (options first) = Inl e"
    and "\<forall>i \<in> set rest. \<exists>e'. check (renderer i) c p ch (options i) = Inl e'"
  shows "resolveRenderer c p ch w =
     (Inl e, w\<lparr>checkLog := checkLog w @ rendererInstances w\<rparr>)"
proof -
  have none: "\<forall>i \<in> set (first # rest). check (renderer i) c p ch (options i) \<noteq> Inr True"
    using assms(3,4) by auto
  have "thrown_errors c p ch (first # rest) = e # thrown_errors c p ch rest"
    using assms(3) by (simp add: thrown_errors_def)
  with loop_no_match [OF none, of "[]" w] assms(1,2) show ?thesis
    by (simp add: resolveRenderer_def)
qed

text \<open>
  C6 at a registry of two throwing adapters.
\<close>

theorem resolveRenderer_all_throw_witness:
  "rendererCache (stub_world [stub ''a'' (Inl (Error ''first'')) [],
        stub ''b'' (Inl (Error ''second'')) []]) (CFunction 0 None ''Counter'') = None
   \<and> resolveRenderer (CFunction 0 None ''Counter'') ''{}'' []
        (stub_world [stub ''a'' (Inl (Error ''first'')) [],
           stub ''b'' (Inl (Error ''second'')) []]) =
      (Inl (Error ''first''),
       \<lparr>rendererInstances = [stub ''a'' (Inl (Error ''first'')) [],
           stub ''b'' (Inl (Error ''second'')) []],
        rendererCache = Map.empty,
        checkLog = [stub ''a'' (Inl (Error ''first'')) [],
           stub ''b'' (Inl (Error ''second'')) []]\<rparr>)"
  using resolveRenderer_all_throw [of
      "stub_world [stub ''a'' (Inl (Error ''first'')) [], stub ''b'' (Inl (Error ''second'')) []]"
      "CFunction 0 None ''Counter''" "stub ''a'' (Inl (Error ''first'')) []"
      "[stub ''b'' (Inl (Error ''second'')) []]" "''{}''" "[]" "Error ''first''"]
  by (simp add: stub_world_def stub_def)

text \<open>
  Claim C7 says that the static output never contains a wrapper tag and that the
  removal ignores case and attributes. A tag split by another tag survives as a whole
  tag, upper-case tags are kept, and an opening tag with an attribute is kept.
\<close>

theorem static_markup_wrapper_counterexample:
  \<open>fst (astro_component_render stub_env (CFunction 7 None ''Card'')
        \<lparr>displayName = Some ''Card'', hydrate = None, componentUrl = None,
         componentExport = None\<rparr> ''{}'' []
        (stub_world [stub ''a'' (Inr True) ''<astro-<astro-fragment>fragment>''])) =
     Inr ''<astro-fragment>''
   \<and> sublist openTag ''<astro-fragment>''
   \<and> fst (astro_component_render stub_env (CFunction 7 None ''Card'')
        \<lparr>displayName = Some ''Card'', hydrate = None, componentUrl = None,
         componentExport = None\<rparr> ''{}'' []
        (stub_world [stub ''a'' (Inr True) ''<ASTRO-FRAGMENT>x</ASTRO-FRAGMENT>''])) =
     Inr ''<ASTRO-FRAGMENT>x</ASTRO-FRAGMENT>''
   \<and> fst (astro_component_render stub_env (CFunction 7 None ''Card'')
        \<lparr>displayName = Some ''Card'', hydrate = None, componentUrl = None,
         componentExport = None\<rparr> ''{}'' []
        (stub_world [stub ''a'' (Inr True) ''<astro-fragment class="x">y</astro-fragment>''])) =
     Inr ''<astro-fragment class="x">y''\<close>
  by (simp add: astro_component_render_def astro_component_instance_def
      astro_component_markup_def astro_component_html_def resolveRenderer_def
      stub_world_def stub_def openTag_def closeTag_def Let_def)

text \<open>
  Claim C7, amended. For a render without hydration whose markup is a sequence of
  wrapper tags, written exactly as \<open><astro-fragment>\<close> and \<open></astro-fragment>\<close>, and of
  texts in which no wrapper tag begins, the output is the texts in order, untouched, and
  contains no wrapper tag, however the tags are nested or repeated.
\<close>

theorem static_markup_wrapper_removed:
  assumes "astro_component_instance E c cp p (join ''\<newline>'' cs) w = (Inr inst, w1)"
    and "hydrate cp = None"
    and "astro_component_html inst c p (join ''\<newline>'' cs) = Inr (markupOf ps)"
    and "piecesTagFree ps"
  shows "astro_component_render E c cp p cs w = (Inr (textOf ps), w1) \<and>
         \<not> sublist openTag (textOf ps) \<and> \<not> sublist closeTag (textOf ps)"
  using assms remove_pieces [OF assms(4)]
  by (simp add: astro_component_render_def astro_component_markup_def Let_def)

text \<open>
  The amended C7 at markup with nested and repeated wrappers around \<open><p>hi</p>\<close>.
\<close>

theorem static_markup_wrapper_removed_witness:
  "astro_component_instance stub_env (CFunction 7 None ''Card'')
      \<lparr>displayName = Some ''Card'', hydrate = None, componentUrl = None,
       componentExport = None\<rparr> ''{}'' (join ''\<newline>'' [])
      (stub_world [stub ''a'' (Inr True)
         ''<astro-fragment><p><astro-fragment>hi</astro-fragment></astro-fragment></p></astro-fragment>'']) =
     (Inr (stub ''a'' (Inr True)
         ''<astro-fragment><p><astro-fragment>hi</astro-fragment></astro-fragment></p></astro-fragment>''),
      \<lparr>rendererInstances = [stub ''a'' (Inr True)
         ''<astro-fragment><p><astro-fragment>hi</astro-fragment></astro-fragment></p></astro-fragment>''],
       rendererCache = [CFunction 7 None ''Card'' \<mapsto> stub ''a'' (Inr True)
         ''<astro-fragment><p><astro-fragment>hi</astro-fragment></astro-fragment></p></astro-fragment>''],
       checkLog = [stub ''a'' (Inr True)
         ''<astro-fragment><p><astro-fragment>hi</astro-fragment></astro-fragment></p></astro-fragment>'']\<rparr>)
   \<and> piecesTagFree [Open, Text ''<p>'', Open, Text ''hi'', Close, Close, Text ''</p>'', Close]
   \<and> astro_component_render stub_env (CFunction 7 None ''Card'')
      \<lparr>displayName = Some ''Card'', hydrate = None, componentUrl = None,
       componentExport = None\<rparr> ''{}'' []
      (stub_world [stub ''a'' (Inr True)
         ''<astro-fragment><p><astro-fragment>hi</astro-fragment></astro-fragment></p></astro-fragment>'']) =
     (Inr ''<p>hi</p>'',
      \<lparr>rendererInstances = [stub ''a'' (Inr True)
         ''<astro-fragment><p><astro-fragment>hi</astro-fragment></astro-fragment></p></astro-fragment>''],
       rendererCache = [CFunction 7 None ''Card'' \<mapsto> stub ''a'' (Inr True)
         ''<astro-fragment><p><astro-fragment>hi</astro-fragment></astro-fragment></p></astro-fragment>''],
       checkLog = [stub ''a'' (Inr True)
         ''<astro-fragment><p><astro-fragment>hi</astro-fragment></astro-fragment></p></astro-fragment>'']\<rparr>)"
proof -
  let ?html = "''<astro-fragment><p><astro-fragment>hi</astro-fragment></astro-fragment></p></astro-fragment>''"
  let ?cp = "\<lparr>displayName = Some ''Card'', hydrate = None, componentUrl = None,
       componentExport = None\<rparr>"
  let ?ps = "[Open, Text ''<p>'', Open, Text ''hi'', Close, Close, Text ''</p>'', Close]"
  have inst: "astro_component_instance stub_env (CFunction 7 None ''Card'') ?cp ''{}''
      (join ''\<newline>'' []) (stub_world [stub ''a'' (Inr True) ?html]) =
     (Inr (stub ''a'' (Inr True) ?html),
      \<lparr>rendererInstances = [stub ''a'' (Inr True) ?html],
       rendererCache = [CFunction 7 None ''Card'' \<mapsto> stub ''a'' (Inr True) ?html],
       checkLog = [stub ''a'' (Inr True) ?html]\<rparr>)"
    by (simp add: astro_component_instance_def resolveRenderer_def stub_world_def stub_def Let_def)
  have hyd: "hydrate ?cp = None" by simp
  have html: "astro_component_html (stub ''a'' (Inr True) ?html) (CFunction 7 None ''Card'') ''{}''
      (join ''\<newline>'' []) = Inr (markupOf ?ps)"
    by (simp add: astro_component_html_def stub_def markupOf_def pieceMarkup_def
        openTag_def closeTag_def)
  have free: "piecesTagFree ?ps"
    by (simp add: piecesTagFree_def openTag_def closeTag_def)
  from static_markup_wrapper_removed [OF inst hyd html free] inst free
  show ?thesis by (simp add: textOf_def)
qed

text \<open>
  Claim C8 says that \<open>setRenderers\<close> clears the cache. It does not: an instance cached
  under the first registry is still cached, and still returned, after the registry has
  been replaced by one that does not contain it.
\<close>

theorem setRenderers_clears_counterexample:
  "rendererCache
     (setRenderers stub_env [stub ''new'' (Inr False) []]
        (snd (resolveRenderer (CFunction 0 None ''Counter'') ''{}'' []
           (setRenderers stub_env [stub ''old'' (Inr True) []] initial_world))))
     (CFunction 0 None ''Counter'') = Some (stub ''old'' (Inr True) [])
   \<and> fst (resolveRenderer (CFunction 0 None ''Counter'') ''{}'' []
      (setRenderers stub_env [stub ''new'' (Inr False) []]
        (snd (resolveRenderer (CFunction 0 None ''Counter'') ''{}'' []
           (setRenderers stub_env [stub ''old'' (Inr True) []] initial_world))))) =
      Inr (Some (stub ''old'' (Inr True) []))
   \<and> stub ''old'' (Inr True) [] \<notin> set (rendererInstances
      (setRenderers stub_env [stub ''new'' (Inr False) []]
        (snd (resolveRenderer (CFunction 0 None ''Counter'') ''{}'' []
           (setRenderers stub_env [stub ''old'' (Inr True) []] initial_world)))))"
  by (simp add: resolveRenderer_def setRenderers_def initial_world_def stub_env_def stub_def
      astroRendererInstance_def Let_def)

text \<open>
  Claim C8, amended. \<open>setRenderers\<close> replaces the registry by the \<open>astro\<close> instance
  followed by the given instances and changes nothing else: the cache is kept, so a
  component cached before the call resolves to its cached instance after it.
\<close>

theorem setRenderers_effect:
  "rendererInstances (setRenderers E rs w) = astroRendererInstance E # rs \<and>
   rendererCache (setRenderers E rs w) = rendererCache w \<and>
   checkLog (setRenderers E rs w) = checkLog w \<and>
   (rendererCache w c = Some inst \<longrightarrow>
      resolveRenderer c p ch (setRenderers E rs w) = (Inr (Some inst), setRenderers E rs w))"
  by (simp add: setRenderers_def resolveRenderer_def)

text \<open>
  The amended C8 at a state with one cached component.
\<close>

theorem setRenderers_effect_witness:
  "rendererCache \<lparr>rendererInstances = [stub ''old'' (Inr True) []],
      rendererCache = [CFunction 0 None ''Counter'' \<mapsto> stub ''old'' (Inr True) []],
      checkLog = [stub ''old'' (Inr True) []]\<rparr> (CFunction 0 None ''Counter'')
     = Some (stub ''old'' (Inr True) [])
   \<and> resolveRenderer (CFunction 0 None ''Counter'') ''{}'' []
       (setRenderers stub_env [stub ''new'' (Inr False) []]
         \<lparr>rendererInstances = [stub ''old'' (Inr True) []],
          rendererCache = [CFunction 0 None ''Counter'' \<mapsto> stub ''old'' (Inr True) []],
          checkLog = [stub ''old'' (Inr True) []]\<rparr>) =
     (Inr (Some (stub ''old'' (Inr True) [])),
      \<lparr>rendererInstances = [astroRendererInstance stub_env, stub ''new'' (Inr False) []],
       rendererCache = [CFunction 0 None ''Counter'' \<mapsto> stub ''old'' (Inr True) []],
       checkLog = [stub ''old'' (Inr True) []]\<rparr>)"
  using setRenderers_effect [of stub_env "[stub ''new'' (Inr False) []]"
      "\<lparr>rendererInstances = [stub ''old'' (Inr True) []],
        rendererCache = [CFunction 0 None ''Counter'' \<mapsto> stub ''old'' (Inr True) []],
        checkLog = [stub ''old'' (Inr True) []]\<rparr>"
      "CFunction 0 None ''Counter''" "stub ''old'' (Inr True) []" "''{}''" "[]"]
  by (simp add: setRenderers_def)

text \<open>
  Claim C9 says that the callback body of every hydrated render holds the serialized
  props. For an instance without client source, here the plain-HTML instance chosen for
  a custom element, the body only imports the component and the props are nowhere in
  the output.
\<close>

theorem hydrated_markup_props_counterexample:
  \<open>fst (astro_component_render stub_env (CString ''my-widget'')
        \<lparr>displayName = Some ''my-widget'', hydrate = Some Visible,
         componentUrl = Some ''/_astro/my-widget.js'',
         componentExport = Some \<lparr>exportValue = ''default'', namespace = None\<rparr>\<rparr>
        ''{count: 1}'' []
        (stub_world [astroRendererInstance stub_env, stub ''a'' (Inr False) ''<b>a</b>''])) =
     Inr (''<astro-root uid="Z1x9Qk"></astro-root>\<newline>''
          @ ''<script type="module">\<newline>''
          @ ''import setup from '/_astro_frontend/hydrate/visible.js';\<newline>''
          @ ''setup("Z1x9Qk", async () => {\<newline>''
          @ ''  await import("/_astro/my-widget.js");\<newline>''
          @ ''  return () => {};\<newline>''
          @ ''});\<newline>''
          @ ''</script>'')
   \<and> serialize stub_env ''{count: 1}'' = ''{count: 1}''
   \<and> \<not> sublist ''{count: 1}''
         (''<astro-root uid="Z1x9Qk"></astro-root>\<newline>''
          @ ''<script type="module">\<newline>''
          @ ''import setup from '/_astro_frontend/hydrate/visible.js';\<newline>''
          @ ''setup("Z1x9Qk", async () => {\<newline>''
          @ ''  await import("/_astro/my-widget.js");\<newline>''
          @ ''  return () => {};\<newline>''
          @ ''});\<newline>''
          @ ''</script>'')\<close>
  by (simp add: astro_component_render_def astro_component_instance_def
      astro_component_markup_def astro_component_html_def resolveRenderer_def
      generateHydrateScript_def isCustomElementTag_def astroHtmlRendererInstance_def
      astroRendererInstance_def truthy_def templateString_def templateMode_def modeString_def
      stub_world_def stub_def stub_env_def Let_def sublist_Cons_right)

text \<open>
  Claim C9, amended. For a hydrated render whose adapter returns markup, the output is
  the \<open>astro-root\<close> element, with \<open>uid\<close> the hash of the markup, around the markup, a
  newline, and the module script that imports \<open>setup\<close> from the path of the mode and
  calls it with the same id and an async callback. The callback body holds the
  serialized props when the instance has a client source, not empty (\<open>componentExport\<close>
  is then read and must be present); otherwise it imports the component and returns a
  function that does nothing.
\<close>

theorem hydrated_markup:
  assumes "astro_component_instance E c cp p (join ''\<newline>'' cs) w = (Inr inst, w1)"
    and "hydrate cp = Some mode"
    and "astro_component_html inst c p (join ''\<newline>'' cs) = Inr html"
    and "truthy (source inst) \<longrightarrow> componentExport cp = Some ce"
  shows \<open>astro_component_render E c cp p cs w =
     (Inr (''<astro-root uid="'' @ hash_unique E html @ ''">'' @ html @ ''</astro-root>''
           @ ''\<newline>''
           @ ''<script type="module">\<newline>''
           @ ''import setup from '/_astro_frontend/hydrate/'' @ modeString mode @ ''.js';\<newline>''
           @ ''setup("'' @ hash_unique E html @ ''", async () => {\<newline>''
           @ ''  ''
           @ (if truthy (source inst)
              then ''const [{ '' @ exportValue ce
                   @ '': Component }, { default: hydrate }] = await Promise.all([import("''
                   @ templateString (componentUrl cp) @ ''"), import("''
                   @ the (source inst) @ ''")]);\<newline>''
                   @ ''  return (el, children) => hydrate(el)(Component, ''
                   @ serialize E p @ '', children);''
              else ''await import("'' @ templateString (componentUrl cp)
                   @ ''");\<newline>  return () => {};'')
           @ ''\<newline>''
           @ ''});\<newline>''
           @ ''</script>''),
      w1)\<close>
proof (cases "truthy (source inst)")
  case True
  then obtain s where "source inst = Some s" by (auto simp: truthy_def split: option.splits)
  with True assms show ?thesis
    by (simp add: astro_component_render_def astro_component_markup_def
        generateHydrateScript_def templateString_def templateMode_def Let_def)
next
  case False
  with assms show ?thesis
    by (simp add: astro_component_render_def astro_component_markup_def
        generateHydrateScript_def templateMode_def Let_def)
qed

text \<open>
  The amended C9 at the scenario of the specification: mode \<open>visible\<close>, props
  \<open>{count: 1}\<close>, an adapter with a client source.
\<close>

theorem hydrated_markup_witness:
  \<open>astro_component_instance stub_env (CFunction 7 None ''Counter'')
      \<lparr>displayName = Some ''Counter'', hydrate = Some Visible,
       componentUrl = Some ''/_astro/Counter.js'',
       componentExport = Some \<lparr>exportValue = ''default'', namespace = None\<rparr>\<rparr>
      ''{count: 1}'' (join ''\<newline>'' [])
      (stub_world [stub ''/_astro/client.js'' (Inr True) ''<b>1</b>'']) =
     (Inr (stub ''/_astro/client.js'' (Inr True) ''<b>1</b>''),
      \<lparr>rendererInstances = [stub ''/_astro/client.js'' (Inr True) ''<b>1</b>''],
       rendererCache = [CFunction 7 None ''Counter'' \<mapsto>
          stub ''/_astro/client.js'' (Inr True) ''<b>1</b>''],
       checkLog = [stub ''/_astro/client.js'' (Inr True) ''<b>1</b>'']\<rparr>)
   \<and> fst (astro_component_render stub_env (CFunction 7 None ''Counter'')
      \<lparr>displayName = Some ''Counter'', hydrate = Some Visible,
       componentUrl = Some ''/_astro/Counter.js'',
       componentExport = Some \<lparr>exportValue = ''default'', namespace = None\<rparr>\<rparr>
      ''{count: 1}'' []
      (stub_world [stub ''/_astro/client.js'' (Inr True) ''<b>1</b>''])) =
     Inr (''<astro-root uid="Z1x9Qk"><b>1</b></astro-root>\<newline>''
          @ ''<script type="module">\<newline>''
          @ ''import setup from '/_astro_frontend/hydrate/visible.js';\<newline>''
          @ ''setup("Z1x9Qk", async () => {\<newline>''
          @ ''  const [{ default: Component }, { default: hydrate }] = ''
          @ ''await Promise.all([import("/_astro/Counter.js"), import("/_astro/client.js")]);\<newline>''
          @ ''  return (el, children) => hydrate(el)(Component, {count: 1}, children);\<newline>''
          @ ''});\<newline>''
          @ ''</script>'')\<close>
proof -
  let ?cp = "\<lparr>displayName = Some ''Counter'', hydrate = Some Visible,
       componentUrl = Some ''/_astro/Counter.js'',
       componentExport = Some \<lparr>exportValue = ''default'', namespace = None\<rparr>\<rparr>"
  let ?i = "stub ''/_astro/client.js'' (Inr True) ''<b>1</b>''"
  have inst: "astro_component_instance stub_env (CFunction 7 None ''Counter'') ?cp
      ''{count: 1}'' (join ''\<newline>'' []) (stub_world [?i]) =
     (Inr ?i,
      \<lparr>rendererInstances = [?i], rendererCache = [CFunction 7 None ''Counter'' \<mapsto> ?i],
       checkLog = [?i]\<rparr>)"
    by (simp add: astro_component_instance_def resolveRenderer_def stub_world_def stub_def Let_def)
  have hyd: "hydrate ?cp = Some Visible" by simp
  have html: "astro_component_html ?i (CFunction 7 None ''Counter'') ''{count: 1}''
      (join ''\<newline>'' []) = Inr ''<b>1</b>''"
    by (simp add: astro_component_html_def stub_def)
  have exp: "truthy (source ?i) \<longrightarrow>
      componentExport ?cp = Some \<lparr>exportValue = ''default'', namespace = None\<rparr>"
    by simp
  from hydrated_markup [OF inst hyd html exp] inst
  show ?thesis
    by (simp add: stub_def stub_env_def truthy_def templateString_def modeString_def)
qed




end
